theory Spec2Isabelle
  imports Main
begin

section \<open>The chain package: ordered composition of handler wraps\<close>

text \<open>
  The Go package \<^verbatim>\<open>chain\<close> (file \<^verbatim>\<open>chain.go\<close>) is embedded function by function.
  What Go leaves implicit is written out:
  \<^item> a call through a nil func value or a nil interface value panics; every such call of
    the source is a branch returning \<open>Inl NilDereference\<close>;
  \<^item> the effects of serving a request (writing headers and a body, logging) act on a
    world of type \<open>'s\<close>; a handler body is a function from the world to a panic or the
    new world;
  \<^item> a slice is a header (array, offset, length, capacity) into a store of backing arrays,
    so that two chain values can share an array, as they do in Go;
  \<^item> the address-of operator in \<^verbatim>\<open>InitPHFC\<close> allocates a cell in a store of contexts.
\<close>

subsection \<open>Panics and sequencing\<close>

datatype panic = NilDereference | IndexOutOfRange | InvalidMemory | Custom string

type_synonym 's effect = "'s \<Rightarrow> panic + 's"

text \<open>Running statements one after the other; a panic ends the run.\<close>

fun run_all :: "'s effect list \<Rightarrow> 's effect" where
  "run_all [] s = Inr s"
| "run_all (e # es) s = (case e s of Inl p \<Rightarrow> Inl p | Inr s' \<Rightarrow> run_all es s')"

subsection \<open>Handlers\<close>

text \<open>
  \<^verbatim>\<open>type Handler interface { ServeHTTPContext(context.Context, http.ResponseWriter, *http.Request) }\<close>
  \<^verbatim>\<open>type HandlerFunc func(context.Context, http.ResponseWriter, *http.Request)\<close>

  The chain code never looks into the context, the response writer or the request: they
  are the type parameters \<open>'c\<close>, \<open>'w\<close> and \<open>'r\<close>. A non-nil value of the interface type
  \<^verbatim>\<open>Handler\<close> is either a \<^verbatim>\<open>HandlerFunc\<close> (whose func value may itself be nil) or a value
  of some other type with the method; the nil interface value is \<open>None\<close>.
\<close>

type_synonym ('c, 'w, 'r, 's) ctxfunc = "'c \<Rightarrow> 'w \<Rightarrow> 'r \<Rightarrow> 's effect"

type_synonym ('w, 'r, 's) plainfunc = "'w \<Rightarrow> 'r \<Rightarrow> 's effect"

datatype ('c, 'w, 'r, 's) Handler =
    HandlerFunc "('c, 'w, 'r, 's) ctxfunc option"
  | HandlerImpl "('c, 'w, 'r, 's) ctxfunc"

text \<open>\<^verbatim>\<open>func (h HandlerFunc) ServeHTTPContext(c, w, r) { h(c, w, r) }\<close>\<close>

fun HandlerFunc_ServeHTTPContext ::
  "('c, 'w, 'r, 's) ctxfunc option \<Rightarrow> ('c, 'w, 'r, 's) ctxfunc" where
  "HandlerFunc_ServeHTTPContext None c w r s = Inl NilDereference"
| "HandlerFunc_ServeHTTPContext (Some h) c w r s = h c w r s"

text \<open>The method call \<^verbatim>\<open>h.ServeHTTPContext(c, w, r)\<close> on a value of the interface type.\<close>

fun ServeHTTPContext ::
  "('c, 'w, 'r, 's) Handler option \<Rightarrow> ('c, 'w, 'r, 's) ctxfunc" where
  "ServeHTTPContext None c w r s = Inl NilDereference"
| "ServeHTTPContext (Some (HandlerFunc h)) c w r s = HandlerFunc_ServeHTTPContext h c w r s"
| "ServeHTTPContext (Some (HandlerImpl f)) c w r s = f c w r s"

text \<open>
  \<^verbatim>\<open>type handlerAdapter struct { ctx context.Context; h Handler }\<close>
  \<^verbatim>\<open>type noCtxHandlerAdapter struct { handlerAdapter; mw func(http.Handler) http.Handler }\<close>

  A non-nil \<^verbatim>\<open>http.Handler\<close> is one of the package's two adapters or a handler of the
  host framework. The field \<^verbatim>\<open>mw\<close> of \<^verbatim>\<open>noCtxHandlerAdapter\<close> is written once in
  \<^verbatim>\<open>Bridge\<close> and read nowhere, and the type is unexported; the model leaves the field out
  (a function on \<^verbatim>\<open>http.Handler\<close> cannot be stored inside the datatype of
  \<^verbatim>\<open>http.Handler\<close> values).
\<close>

record ('c, 'w, 'r, 's) handlerAdapter =
  ha_ctx :: 'c
  ha_h :: "('c, 'w, 'r, 's) Handler option"

datatype ('c, 'w, 'r, 's) http_Handler =
    HandlerAdapter "('c, 'w, 'r, 's) handlerAdapter"
  | NoCtxHandlerAdapter "('c, 'w, 'r, 's) handlerAdapter"
  | HostHandler "('w, 'r, 's) plainfunc"

text \<open>\<^verbatim>\<open>func (ha handlerAdapter) ServeHTTP(w, r) { ha.h.ServeHTTPContext(ha.ctx, w, r) }\<close>\<close>

definition handlerAdapter_ServeHTTP ::
  "('c, 'w, 'r, 's) handlerAdapter \<Rightarrow> ('w, 'r, 's) plainfunc" where
  "handlerAdapter_ServeHTTP ha w r s = ServeHTTPContext (ha_h ha) (ha_ctx ha) w r s"

text \<open>
  The method call \<^verbatim>\<open>x.ServeHTTP(w, r)\<close> on a value of type \<^verbatim>\<open>http.Handler\<close>;
  \<^verbatim>\<open>noCtxHandlerAdapter\<close> has the method of the struct it embeds.
\<close>

fun ServeHTTP :: "('c, 'w, 'r, 's) http_Handler option \<Rightarrow> ('w, 'r, 's) plainfunc" where
  "ServeHTTP None w r s = Inl NilDereference"
| "ServeHTTP (Some (HandlerAdapter ha)) w r s = handlerAdapter_ServeHTTP ha w r s"
| "ServeHTTP (Some (NoCtxHandlerAdapter ha)) w r s = handlerAdapter_ServeHTTP ha w r s"
| "ServeHTTP (Some (HostHandler f)) w r s = f w r s"

text \<open>
  A wrap, \<^verbatim>\<open>func(Handler) Handler\<close>, is here a function of its argument alone: it builds
  the handler it returns and has no other effect when it is applied (the effects of a
  wrap are those of the handler it returns, at each request). A legacy wrap,
  \<^verbatim>\<open>func(http.Handler) http.Handler\<close>, likewise. Wraps that keep state or write memory
  when they are applied are the subject of the second embedding of \<^verbatim>\<open>End\<close> below.
\<close>

type_synonym ('c, 'w, 'r, 's) Wrap =
  "('c, 'w, 'r, 's) Handler option \<Rightarrow> ('c, 'w, 'r, 's) Handler option"

type_synonym ('c, 'w, 'r, 's) LegacyWrap =
  "('c, 'w, 'r, 's) http_Handler option \<Rightarrow> ('c, 'w, 'r, 's) http_Handler option"

subsection \<open>Slices\<close>

text \<open>
  A Go slice is a header: a pointer to an element of a backing array, a length and a
  capacity. The store is the list of the backing arrays allocated so far; the address of
  an array is its position in the store, and a new array goes to the end. Elements are
  options, \<open>None\<close> being the zero value (a nil func) that fills a fresh array's
  spare capacity. A slice of capacity 0 (the nil slice among them) has no array behind it.
\<close>

record slice =
  arr :: nat
  off :: nat
  len :: nat
  cap :: nat

type_synonym 'a store = "'a option list list"

definition nil_slice :: slice where
  "nil_slice = \<lparr>arr = 0, off = 0, len = 0, cap = 0\<rparr>"

text \<open>A header that Go can produce: within its capacity, and the capacity within the array.\<close>

definition wf_slice :: "'a store \<Rightarrow> slice \<Rightarrow> bool" where
  "wf_slice \<sigma> s \<longleftrightarrow>
     len s \<le> cap s \<and> (cap s = 0 \<or> (arr s < length \<sigma> \<and> off s + cap s \<le> length (\<sigma> ! arr s)))"

text \<open>The elements a slice shows: what \<^verbatim>\<open>range s\<close> would visit.\<close>

definition elems :: "'a store \<Rightarrow> slice \<Rightarrow> 'a option list" where
  "elems \<sigma> s = (if len s = 0 then [] else take (len s) (drop (off s) (\<sigma> ! arr s)))"

text \<open>
  The index expression \<^verbatim>\<open>s[i]\<close> with an \<^verbatim>\<open>int\<close> index: Go panics outside
  \<open>0 \<le> i < len s\<close>. A header that points outside the store does not occur in a Go heap;
  the model answers \<open>InvalidMemory\<close> there.
\<close>

definition index :: "'a store \<Rightarrow> slice \<Rightarrow> int \<Rightarrow> panic + 'a option" where
  "index \<sigma> s i =
     (if i < 0 \<or> int (len s) \<le> i then Inl IndexOutOfRange
      else if arr s < length \<sigma> \<and> off s + nat i < length (\<sigma> ! arr s)
        then Inr (\<sigma> ! arr s ! (off s + nat i))
      else Inl InvalidMemory)"

text \<open>A slice literal, and the argument slice of a variadic call with explicit arguments:
  a fresh array that the elements fill exactly.\<close>

definition make_slice :: "'a store \<Rightarrow> 'a option list \<Rightarrow> slice \<times> 'a store" where
  "make_slice \<sigma> vs = (\<lparr>arr = length \<sigma>, off = 0, len = length vs, cap = length vs\<rparr>, \<sigma> @ [vs])"

text \<open>
  The builtin \<^verbatim>\<open>append(s, vs...)\<close>. When the capacity suffices, the values are written
  into the array of \<open>s\<close>, behind its last element, and the result shares the array.
  Otherwise the elements and the values are copied into a new array. Go promises only
  that the new array is large enough; how much larger is the choice of the runtime,
  here the parameter \<open>grow\<close> (from the old capacity and the length needed).
  The values are read before anything is written, so they are passed as a list.
\<close>

definition write_at :: "'a store \<Rightarrow> nat \<Rightarrow> nat \<Rightarrow> 'a option list \<Rightarrow> 'a store" where
  "write_at \<sigma> a k vs = \<sigma>[a := take k (\<sigma> ! a) @ vs @ drop (k + length vs) (\<sigma> ! a)]"

definition append_slice ::
  "(nat \<Rightarrow> nat \<Rightarrow> nat) \<Rightarrow> 'a store \<Rightarrow> slice \<Rightarrow> 'a option list \<Rightarrow> slice \<times> 'a store" where
  "append_slice grow \<sigma> s vs =
     (let n = len s + length vs in
      if n \<le> cap s then (s\<lparr>len := n\<rparr>, write_at \<sigma> (arr s) (off s + len s) vs)
      else
        (let c = max n (grow (cap s) n) in
         (\<lparr>arr = length \<sigma>, off = 0, len = n, cap = c\<rparr>,
          \<sigma> @ [elems \<sigma> s @ vs @ replicate (c - n) None])))"

subsection \<open>Chain\<close>

text \<open>\<^verbatim>\<open>type Chain struct { ctx context.Context; m []func(Handler) Handler }\<close>\<close>

record 'c Chain =
  chain_ctx :: 'c
  chain_m :: slice

type_synonym ('c, 'w, 'r, 's) wraps = "('c, 'w, 'r, 's) Wrap store"

text \<open>\<^verbatim>\<open>func New(ctx, mw ...func(Handler) Handler) Chain { return Chain{ctx: ctx, m: mw} }\<close>:
  the chain keeps the header of the argument slice, not a copy of its elements.\<close>

definition New :: "'c \<Rightarrow> slice \<Rightarrow> 'c Chain" where
  "New ctx mw = \<lparr>chain_ctx = ctx, chain_m = mw\<rparr>"

text \<open>\<^verbatim>\<open>func (c Chain) Append(mw ...) Chain { c.m = append(c.m, mw...); return c }\<close>:
  the receiver is a copy of the caller's struct, the array behind \<^verbatim>\<open>c.m\<close> is not.\<close>

definition Append ::
  "(nat \<Rightarrow> nat \<Rightarrow> nat) \<Rightarrow> 'c Chain \<Rightarrow> ('c, 'w, 'r, 's) Wrap option list \<Rightarrow>
     ('c, 'w, 'r, 's) wraps \<Rightarrow> 'c Chain \<times> ('c, 'w, 'r, 's) wraps" where
  "Append grow c mw \<sigma> =
     (let (s, \<sigma>') = append_slice grow \<sigma> (chain_m c) mw in (c\<lparr>chain_m := s\<rparr>, \<sigma>'))"

text \<open>
  The loop of \<^verbatim>\<open>End\<close>:
  \<^verbatim>\<open>for i := len(c.m) - 1; i >= 0; i-- { h = c.m[i](h) }\<close>
  Calling a nil func panics.
\<close>

function End_loop ::
  "('c, 'w, 'r, 's) wraps \<Rightarrow> slice \<Rightarrow> int \<Rightarrow> ('c, 'w, 'r, 's) Handler option \<Rightarrow>
     panic + ('c, 'w, 'r, 's) Handler option" where
  "End_loop \<sigma> ms i h =
     (if i \<ge> 0 then
        (case index \<sigma> ms i of
           Inl p \<Rightarrow> Inl p
         | Inr None \<Rightarrow> Inl NilDereference
         | Inr (Some w) \<Rightarrow> End_loop \<sigma> ms (i - 1) (w h))
      else Inr h)"
  by pat_completeness auto
termination
  by (relation "measure (\<lambda>(\<sigma>, ms, i, h). nat (i + 1))") auto

declare End_loop.simps [simp del]

text \<open>
  \<^verbatim>\<open>func (c Chain) End(h Handler) http.Handler\<close>: nil for the nil handler; otherwise the
  wraps are applied and the result is put into a \<^verbatim>\<open>handlerAdapter\<close> with the chain's
  context. The function returns the store as it leaves it.
\<close>

definition End ::
  "'c Chain \<Rightarrow> ('c, 'w, 'r, 's) Handler option \<Rightarrow> ('c, 'w, 'r, 's) wraps \<Rightarrow>
     (panic + ('c, 'w, 'r, 's) http_Handler option) \<times> ('c, 'w, 'r, 's) wraps" where
  "End c h \<sigma> =
     (if h = None then (Inr None, \<sigma>)
      else
        (case End_loop \<sigma> (chain_m c) (int (len (chain_m c)) - 1) h of
           Inl p \<Rightarrow> (Inl p, \<sigma>)
         | Inr h' \<Rightarrow> (Inr (Some (HandlerAdapter \<lparr>ha_ctx = chain_ctx c, ha_h = h'\<rparr>)), \<sigma>)))"

text \<open>
  \<^verbatim>\<open>func (c Chain) EndFn(h HandlerFunc) http.Handler\<close>:
  \<^verbatim>\<open>if h == nil { return c.End(nil) }; return c.End(h)\<close>.
  In the second call the func value becomes an interface value of dynamic type
  \<^verbatim>\<open>HandlerFunc\<close>.
\<close>

definition EndFn ::
  "'c Chain \<Rightarrow> ('c, 'w, 'r, 's) ctxfunc option \<Rightarrow> ('c, 'w, 'r, 's) wraps \<Rightarrow>
     (panic + ('c, 'w, 'r, 's) http_Handler option) \<times> ('c, 'w, 'r, 's) wraps" where
  "EndFn c h \<sigma> =
     (if h = None then End c None \<sigma> else End c (Some (HandlerFunc h)) \<sigma>)"

text \<open>Building a handler and serving one request with it.\<close>

definition invoke ::
  "(panic + ('c, 'w, 'r, 's) http_Handler option) \<Rightarrow> ('w, 'r, 's) plainfunc" where
  "invoke res w r s = (case res of Inl p \<Rightarrow> Inl p | Inr hh \<Rightarrow> ServeHTTP hh w r s)"

subsection \<open>End with wraps as caller code\<close>

text \<open>
  In Go the wraps that \<^verbatim>\<open>End\<close> applies are the caller's code: applying one may change the
  caller's variables and the backing arrays, the chain's own among them. This second
  embedding of \<^verbatim>\<open>End\<close> and \<^verbatim>\<open>EndFn\<close> keeps that. A func value in a slot is a reference (a
  number) to a closure; the table \<open>code\<close> gives the behaviour of each closure. A closure
  takes the handler and the memory (the backing arrays, now of references, and the
  caller's variables, of type \<open>'u\<close>) and returns a handler or a panic, with the memory as
  it leaves it. The loop reads \<^verbatim>\<open>c.m[i]\<close> from the memory as the wraps applied before have
  left it. For closures that only return a handler, this is the embedding above
  (lemma \<open>End_mem_returns\<close>).
\<close>

record 'u memory =
  arrays :: "nat store"
  vars :: 'u

type_synonym ('c, 'w, 'r, 's, 'u) closure =
  "('c, 'w, 'r, 's) Handler option \<Rightarrow> 'u memory \<Rightarrow>
     (panic + ('c, 'w, 'r, 's) Handler option) \<times> 'u memory"

text \<open>The closure of a wrap that is a function of its argument alone.\<close>

definition returns :: "('c, 'w, 'r, 's) Wrap \<Rightarrow> ('c, 'w, 'r, 's, 'u) closure" where
  "returns w = (\<lambda>h M. (Inr (w h), M))"

function End_loop_mem ::
  "(nat \<Rightarrow> ('c, 'w, 'r, 's, 'u) closure) \<Rightarrow> slice \<Rightarrow> int \<Rightarrow> ('c, 'w, 'r, 's) Handler option \<Rightarrow>
     'u memory \<Rightarrow> (panic + ('c, 'w, 'r, 's) Handler option) \<times> 'u memory" where
  "End_loop_mem code ms i h M =
     (if i \<ge> 0 then
        (case index (arrays M) ms i of
           Inl p \<Rightarrow> (Inl p, M)
         | Inr None \<Rightarrow> (Inl NilDereference, M)
         | Inr (Some k) \<Rightarrow>
             (case code k h M of
                (Inl p, M') \<Rightarrow> (Inl p, M')
              | (Inr h', M') \<Rightarrow> End_loop_mem code ms (i - 1) h' M'))
      else (Inr h, M))"
  by pat_completeness auto
termination
  by (relation "measure (\<lambda>(code, ms, i, h, M). nat (i + 1))") auto

declare End_loop_mem.simps [simp del]

definition End_mem ::
  "(nat \<Rightarrow> ('c, 'w, 'r, 's, 'u) closure) \<Rightarrow> 'c Chain \<Rightarrow> ('c, 'w, 'r, 's) Handler option \<Rightarrow>
     'u memory \<Rightarrow> (panic + ('c, 'w, 'r, 's) http_Handler option) \<times> 'u memory" where
  "End_mem code c h M =
     (if h = None then (Inr None, M)
      else
        (case End_loop_mem code (chain_m c) (int (len (chain_m c)) - 1) h M of
           (Inl p, M') \<Rightarrow> (Inl p, M')
         | (Inr h', M') \<Rightarrow>
             (Inr (Some (HandlerAdapter \<lparr>ha_ctx = chain_ctx c, ha_h = h'\<rparr>)), M')))"


subsection \<open>Bridge\<close>

text \<open>
  \<^verbatim>\<open>func Bridge(h func(http.Handler) http.Handler) func(Handler) Handler\<close> returns a wrap
  whose handler, at each request, builds the adapter \<^verbatim>\<open>x\<close> from the context it was
  called with and the next handler \<^verbatim>\<open>n\<close>, and runs \<^verbatim>\<open>h(x).ServeHTTP(w, r)\<close>.
\<close>

definition Bridge :: "('c, 'w, 'r, 's) LegacyWrap option \<Rightarrow> ('c, 'w, 'r, 's) Wrap" where
  "Bridge h =
     (\<lambda>n. Some (HandlerFunc (Some (\<lambda>ctx w r s.
        (let x = NoCtxHandlerAdapter \<lparr>ha_ctx = ctx, ha_h = n\<rparr> in
         case h of
           None \<Rightarrow> Inl NilDereference
         | Some hf \<Rightarrow> ServeHTTP (hf (Some x)) w r s)))))"

subsection \<open>The post-handler context slot\<close>

text \<open>
  A context of \<^verbatim>\<open>golang.org/x/net/context\<close> is a chain of derivations from an empty
  context. \<^verbatim>\<open>WithValue\<close> adds a key and a value; the other derivations (cancellation,
  deadline) add none and are one constructor. Keys are compared with their dynamic type:
  a key of the package's unexported type \<^verbatim>\<open>ctxKey\<close> equals no key of another type. A value
  is nil (\<open>None\<close>), a \<^verbatim>\<open>*context.Context\<close> (an address of a cell, or the nil pointer), or
  a value of another type. The nil interface value is not a context of the model.
\<close>

datatype 'k Key = ctxKey int | foreignKey 'k

datatype 'v Val = ContextPtr "nat option" | foreignVal 'v

datatype ('k, 'v) Context =
    emptyCtx
  | valueCtx "('k, 'v) Context" "'k Key" "'v Val option"
  | cancelCtx "('k, 'v) Context"

text \<open>\<^verbatim>\<open>const postHandlerFuncCtxKey ctxKey = 0\<close>\<close>

definition postHandlerFuncCtxKey :: "'k Key" where
  "postHandlerFuncCtxKey = ctxKey 0"

text \<open>\<^verbatim>\<open>ctx.Value(key)\<close>: the value of the nearest derivation with that key, or nil.\<close>

fun Value :: "('k, 'v) Context \<Rightarrow> 'k Key \<Rightarrow> 'v Val option" where
  "Value emptyCtx key = None"
| "Value (valueCtx parent k v) key = (if k = key then v else Value parent key)"
| "Value (cancelCtx parent) key = Value parent key"

text \<open>The keys under which the derivation chain of a context has an entry.\<close>

fun keys :: "('k, 'v) Context \<Rightarrow> 'k Key set" where
  "keys emptyCtx = {}"
| "keys (valueCtx parent k v) = insert k (keys parent)"
| "keys (cancelCtx parent) = keys parent"

text \<open>
  The cells that hold a \<^verbatim>\<open>context.Context\<close> and have their address taken; the address of
  a cell is its position. Reading through a pointer panics on the nil pointer.
\<close>

type_synonym ('k, 'v) cells = "('k, 'v) Context list"

definition load :: "('k, 'v) cells \<Rightarrow> nat option \<Rightarrow> panic + ('k, 'v) Context" where
  "load \<mu> p =
     (case p of
        None \<Rightarrow> Inl NilDereference
      | Some a \<Rightarrow> if a < length \<mu> then Inr (\<mu> ! a) else Inl InvalidMemory)"

text \<open>
  \<^verbatim>\<open>func InitPHFC(ctx) context.Context { return context.WithValue(ctx, postHandlerFuncCtxKey, &ctx) }\<close>:
  the parameter \<^verbatim>\<open>ctx\<close> is a variable of its own, holding the argument; taking its
  address makes it a cell.
\<close>

definition InitPHFC :: "('k, 'v) Context \<Rightarrow> ('k, 'v) cells \<Rightarrow> ('k, 'v) Context \<times> ('k, 'v) cells" where
  "InitPHFC ctx \<mu> =
     (valueCtx ctx postHandlerFuncCtxKey (Some (ContextPtr (Some (length \<mu>)))), \<mu> @ [ctx])"

text \<open>
  \<^verbatim>\<open>func GetPHFC(ctx) (*context.Context, bool) { cx, ok := ctx.Value(postHandlerFuncCtxKey).(*context.Context); return cx, ok }\<close>:
  a type assertion with two results gives the zero value and false when the value is nil
  or of another type.
\<close>

definition GetPHFC :: "('k, 'v) Context \<Rightarrow> nat option \<times> bool" where
  "GetPHFC ctx =
     (case Value ctx postHandlerFuncCtxKey of
        Some (ContextPtr cx) \<Rightarrow> (cx, True)
      | _ \<Rightarrow> (None, False))"

subsection \<open>Notions used to state the properties\<close>

text \<open>The composition \<open>w0 (w1 (... (wn-1 h)))\<close> of a list of wraps around \<open>h\<close>: the head of
  the list is the outermost layer.\<close>

fun nest :: "('a \<Rightarrow> 'a) list \<Rightarrow> 'a \<Rightarrow> 'a" where
  "nest [] h = h"
| "nest (w # ws) h = w (nest ws h)"

text \<open>The composition in the words of the spec's section 4.2: the last wrap of the list
  is the outermost layer, the first is the one closest to \<open>h\<close>.\<close>

fun nest_last_outermost :: "('a \<Rightarrow> 'a) list \<Rightarrow> 'a \<Rightarrow> 'a" where
  "nest_last_outermost [] h = h"
| "nest_last_outermost (w # ws) h = nest_last_outermost ws (w h)"

text \<open>
  A wrap of the usual shape, with an entry side and an exit side:
  \<^verbatim>\<open>func(n Handler) Handler { return HandlerFunc(func(c, w, r) { entry(c, w, r); n.ServeHTTPContext(c, w, r); exit(c, w, r) }) }\<close>
\<close>

definition layer ::
  "('c, 'w, 'r, 's) ctxfunc \<Rightarrow> ('c, 'w, 'r, 's) ctxfunc \<Rightarrow> ('c, 'w, 'r, 's) Wrap" where
  "layer entry exit =
     (\<lambda>n. Some (HandlerFunc (Some (\<lambda>c w r.
        run_all [entry c w r, ServeHTTPContext n c w r, exit c w r]))))"

text \<open>
  A legacy wrap that uses its argument only by calling it: the handler it returns is a
  host handler whose body may call \<^verbatim>\<open>next.ServeHTTP\<close> any number of times, with any
  response writer and request.
\<close>

definition legacy ::
  "(('w, 'r, 's) plainfunc \<Rightarrow> ('w, 'r, 's) plainfunc) \<Rightarrow> ('c, 'w, 'r, 's) LegacyWrap" where
  "legacy body = (\<lambda>next. Some (HostHandler (body (ServeHTTP next))))"

text \<open>Effects that can be observed: the world is a log of numbers; \<open>emit k\<close> appends \<open>k\<close>,
  \<open>note_ctx\<close> appends the context it is called with.\<close>

definition emit :: "nat \<Rightarrow> ('c, 'w, 'r, nat list) ctxfunc" where
  "emit k c w r s = Inr (s @ [k])"

definition note_ctx :: "(nat, 'w, 'r, nat list) ctxfunc" where
  "note_ctx c w r s = Inr (s @ [c])"

text \<open>A chain with context 7 and two wraps, as \<^verbatim>\<open>New(7, w0, w1)\<close> builds it.\<close>

definition ex_store :: "(nat, unit, unit, nat list) wraps" where
  "ex_store = [[Some (layer (emit 1) (emit 2)), Some (layer (emit 3) (emit 4))]]"

definition ex_chain :: "nat Chain" where
  "ex_chain = New 7 \<lparr>arr = 0, off = 0, len = 2, cap = 2\<rparr>"

text \<open>
  A legacy wrap body that passes the request on: it runs \<open>pre\<close>, serves the response
  writer and request it was given with the next handler, and runs \<open>post\<close>.
\<close>

definition pass_on ::
  "('w, 'r, 's) plainfunc \<Rightarrow> ('w, 'r, 's) plainfunc \<Rightarrow>
     ('w, 'r, 's) plainfunc \<Rightarrow> ('w, 'r, 's) plainfunc" where
  "pass_on pre post = (\<lambda>next w r. run_all [pre w r, next w r, post w r])"

text \<open>A handler that logs the context, the response writer and the request it is called
  with (all three numbers).\<close>

definition note_args :: "(nat, nat, nat, nat list) ctxfunc" where
  "note_args c w r s = Inr (s @ [c, w, r])"

text \<open>The wraps of a chain over two bridged legacy wraps that log and pass the request on,
  and of one whose first legacy wrap serves the next handler with another response writer
  and request (as a compressing or a rewriting middleware does).\<close>

definition ex_passing :: "(nat, nat, nat, nat list) wraps" where
  "ex_passing =
     [[Some (Bridge (Some (legacy (pass_on (emit 1 ()) (emit 2 ()))))),
       Some (Bridge (Some (legacy (pass_on (emit 3 ()) (emit 4 ())))))]]"

definition ex_substituting :: "(nat, nat, nat, nat list) wraps" where
  "ex_substituting =
     [[Some (Bridge (Some (legacy (\<lambda>next w r. next (w + 1) (r + 1))))),
       Some (Bridge (Some (legacy (\<lambda>next w r. next w r))))]]"

text \<open>
  A chain whose slice has room for one more wrap:
  \<^verbatim>\<open>s := make([]func(Handler) Handler, 1, 2); s[0] = w0; C := New(7, s...)\<close>
\<close>

definition ex_spare :: "(nat, unit, unit, nat list) wraps" where
  "ex_spare = [[Some (layer (emit 1) (emit 2)), None]]"

definition ex_parent :: "nat Chain" where
  "ex_parent = New 7 \<lparr>arr = 0, off = 0, len = 1, cap = 2\<rparr>"









section \<open>Properties\<close>

subsection \<open>Reading a chain's wraps\<close>

lemma index_elems:
  assumes "wf_slice \<sigma> s" and "k < len s"
  shows "index \<sigma> s (int k) = Inr (elems \<sigma> s ! k)"
  using assms by (auto simp: wf_slice_def index_def elems_def)

lemma length_elems: "wf_slice \<sigma> s \<Longrightarrow> length (elems \<sigma> s) = len s"
  by (auto simp: wf_slice_def elems_def)

lemma nest_append: "nest (ws @ [w]) h = nest ws (w h)"
  by (induction ws) simp_all

lemma nest_last_outermost_append:
  "nest_last_outermost (ws @ [w]) h = w (nest_last_outermost ws h)"
  by (induction ws arbitrary: h) simp_all

text \<open>The loop, started at index \<open>k - 1\<close>, wraps \<open>h\<close> in the first \<open>k\<close> wraps.\<close>

lemma End_loop_nest:
  assumes "wf_slice \<sigma> s" and "elems \<sigma> s = map Some ws" and "k \<le> length ws"
  shows "End_loop \<sigma> s (int k - 1) h = Inr (nest (take k ws) h)"
  using assms(3)
proof (induction k arbitrary: h)
  case 0
  then show ?case by (simp add: End_loop.simps)
next
  case (Suc k)
  have lenws: "len s = length ws"
    using length_elems [OF assms(1)] assms(2) by simp
  with Suc.prems have "k < len s" by simp
  then have "index \<sigma> s (int k) = Inr (Some (ws ! k))"
    using index_elems [OF assms(1)] assms(2) Suc.prems by simp
  moreover have "End_loop \<sigma> s (int k - 1) ((ws ! k) h) = Inr (nest (take k ws) ((ws ! k) h))"
    using Suc by simp
  ultimately show ?case
    using Suc.prems
    by (subst End_loop.simps) (simp add: take_Suc_conv_app_nth nest_append)
qed

lemma End_nest:
  assumes "wf_slice \<sigma> (chain_m c)" and "elems \<sigma> (chain_m c) = map Some ws"
  shows "End c (Some h) \<sigma> =
    (Inr (Some (HandlerAdapter \<lparr>ha_ctx = chain_ctx c, ha_h = nest ws (Some h)\<rparr>)), \<sigma>)"
proof -
  have "len (chain_m c) = length ws"
    using length_elems [OF assms(1)] assms(2) by simp
  then show ?thesis
    using End_loop_nest [OF assms, of "length ws" "Some h"] by (simp add: End_def)
qed

lemma invoke_End:
  assumes "wf_slice \<sigma> (chain_m c)" and "elems \<sigma> (chain_m c) = map Some ws"
  shows "invoke (fst (End c (Some h) \<sigma>)) w r =
    ServeHTTPContext (nest ws (Some h)) (chain_ctx c) w r"
  by (intro ext) (simp add: End_nest [OF assms] invoke_def handlerAdapter_ServeHTTP_def)

lemma run_all_append:
  "run_all (es @ fs) s = (case run_all es s of Inl p \<Rightarrow> Inl p | Inr s' \<Rightarrow> run_all fs s')"
  by (induction es arbitrary: s) (simp_all split: sum.splits)

lemma run_all_inner: "run_all [e, run_all es, x] s = run_all (e # es @ [x]) s"
  by (simp add: run_all_append split: sum.splits)

lemma layer_serve:
  "ServeHTTPContext (layer entry exit n) c w r =
     run_all [entry c w r, ServeHTTPContext n c w r, exit c w r]"
  by (intro ext) (simp add: layer_def)

lemma nest_layers:
  "ServeHTTPContext (nest (map (\<lambda>(entry, exit). layer entry exit) lays) n) c w r =
     run_all (map (\<lambda>(entry, exit). entry c w r) lays @ [ServeHTTPContext n c w r] @
       rev (map (\<lambda>(entry, exit). exit c w r) lays))"
proof (induction lays)
  case Nil
  show ?case by (intro ext) (simp split: sum.splits)
next
  case (Cons a lays)
  obtain entry exit where a: "a = (entry, exit)" by (cases a)
  show ?case
    by (intro ext) (simp add: a layer_serve Cons.IH run_all_inner del: run_all.simps)
qed

lemma NoCtx_ServeHTTP:
  "ServeHTTP (Some (NoCtxHandlerAdapter \<lparr>ha_ctx = c, ha_h = n\<rparr>)) = ServeHTTPContext n c"
  by (intro ext) (simp add: handlerAdapter_ServeHTTP_def)

lemma Bridge_legacy:
  "ServeHTTPContext (Bridge (Some (legacy body)) n) c = body (ServeHTTPContext n c)"
  by (intro ext) (simp add: Bridge_def legacy_def NoCtx_ServeHTTP)

lemma nest_bridges:
  "ServeHTTPContext (nest (map (\<lambda>b. Bridge (Some (legacy b))) bodies) n) c =
     nest bodies (ServeHTTPContext n c)"
  by (induction bodies) (simp_all add: Bridge_legacy)

lemma pass_on_serve: "pass_on pre post next w r = run_all [pre w r, next w r, post w r]"
  by (simp add: pass_on_def)

lemma nest_pass_on:
  "nest (map (\<lambda>(pre, post). pass_on pre post) lays) k w r =
     run_all (map (\<lambda>(pre, post). pre w r) lays @ [k w r] @ rev (map (\<lambda>(pre, post). post w r) lays))"
proof (induction lays)
  case Nil
  show ?case by (intro ext) (simp split: sum.splits)
next
  case (Cons a lays)
  obtain pre post where a: "a = (pre, post)" by (cases a)
  have "nest (map (\<lambda>(pre, post). pass_on pre post) (a # lays)) k w r s =
      run_all (pre w r # (map (\<lambda>(pre, post). pre w r) lays @ [k w r] @
        rev (map (\<lambda>(pre, post). post w r) lays)) @ [post w r]) s" for s
    by (simp only: a list.map prod.case nest.simps pass_on_serve Cons.IH run_all_inner)
  then show ?case
    by (intro ext) (simp add: a del: run_all.simps)
qed

lemma Value_absent: "key \<notin> keys ctx \<Longrightarrow> Value ctx key = None"
  by (induction ctx) auto

lemma ex_chain_New:
  "(let (mw, \<sigma>) = make_slice [] [Some (layer (emit 1) (emit 2)), Some (layer (emit 3) (emit 4))]
    in (New 7 mw, \<sigma>)) = (ex_chain, ex_store)"
  by (simp add: make_slice_def ex_chain_def ex_store_def numeral_2_eq_2)

lemma ex_chain_wf: "wf_slice ex_store (chain_m ex_chain)"
  by (simp add: wf_slice_def ex_store_def ex_chain_def New_def)

lemma ex_chain_elems:
  "elems ex_store (chain_m ex_chain) = map Some [layer (emit 1) (emit 2), layer (emit 3) (emit 4)]"
  by (simp add: elems_def ex_store_def ex_chain_def New_def)

subsection \<open>The order of the layers\<close>

text \<open>
  C1. For wraps \<open>w0, ..., wn-1\<close> stored in a chain in that order and a non-nil handler \<open>h\<close>,
  \<^verbatim>\<open>End(h)\<close> returns the adapter of the composition \<open>w0 (w1 (... (wn-1 h)))\<close>; when the wraps
  have an entry side and an exit side, a request runs the entry sides in the order of
  storage, then \<open>h\<close>, then the exit sides in the opposite order, all with the chain's
  context.
\<close>

theorem End_effect_order:
  assumes "wf_slice \<sigma> (chain_m c)"
    and "elems \<sigma> (chain_m c) = map (\<lambda>(entry, exit). Some (layer entry exit)) lays"
  shows "fst (End c (Some h) \<sigma>) =
      Inr (Some (HandlerAdapter \<lparr>ha_ctx = chain_ctx c,
        ha_h = nest (map (\<lambda>(entry, exit). layer entry exit) lays) (Some h)\<rparr>)) \<and>
    invoke (fst (End c (Some h) \<sigma>)) w r s =
      run_all (map (\<lambda>(entry, exit). entry (chain_ctx c) w r) lays @
        [ServeHTTPContext (Some h) (chain_ctx c) w r] @
        rev (map (\<lambda>(entry, exit). exit (chain_ctx c) w r) lays)) s"
proof -
  have stored: "elems \<sigma> (chain_m c) = map Some (map (\<lambda>(entry, exit). layer entry exit) lays)"
    using assms(2) by (simp add: case_prod_unfold)
  show ?thesis
  proof
    show "fst (End c (Some h) \<sigma>) =
      Inr (Some (HandlerAdapter \<lparr>ha_ctx = chain_ctx c,
        ha_h = nest (map (\<lambda>(entry, exit). layer entry exit) lays) (Some h)\<rparr>))"
      by (simp add: End_nest [OF assms(1) stored])
  next
    show "invoke (fst (End c (Some h) \<sigma>)) w r s =
      run_all (map (\<lambda>(entry, exit). entry (chain_ctx c) w r) lays @
        [ServeHTTPContext (Some h) (chain_ctx c) w r] @
        rev (map (\<lambda>(entry, exit). exit (chain_ctx c) w r) lays)) s"
      by (simp only: invoke_End [OF assms(1) stored] nest_layers)
  qed
qed

theorem End_effect_order_witness:
  "wf_slice ex_store (chain_m ex_chain) \<and>
   elems ex_store (chain_m ex_chain) =
     map (\<lambda>(entry, exit). Some (layer entry exit)) [(emit 1, emit 2), (emit 3, emit 4)] \<and>
   invoke (fst (End ex_chain (Some (HandlerFunc (Some (emit 0)))) ex_store)) () () [] =
     Inr [1, 3, 0, 4, 2]"
proof -
  have stored: "elems ex_store (chain_m ex_chain) =
      map (\<lambda>(entry, exit). Some (layer entry exit)) [(emit 1, emit 2), (emit 3, emit 4)]"
    by (simp add: ex_chain_elems)
  from conjunct2 [OF End_effect_order [OF ex_chain_wf stored, of "HandlerFunc (Some (emit 0))" "()" "()" "[]"]]
  have "invoke (fst (End ex_chain (Some (HandlerFunc (Some (emit 0)))) ex_store)) () () [] =
      Inr [1, 3, 0, 4, 2]"
    by (simp add: emit_def)
  with ex_chain_wf stored show ?thesis by simp
qed

text \<open>
  C3 as the spec states it (the last-appended wrap outermost, the first-appended closest
  to the handler) fails on a chain of two wraps: the request enters the first wrap first.
\<close>

theorem End_last_outermost_counterexample:
  "invoke (fst (End ex_chain (Some (HandlerFunc (Some (emit 0)))) ex_store)) () () [] =
     Inr [1, 3, 0, 4, 2] \<and>
   ServeHTTP (Some (HandlerAdapter \<lparr>ha_ctx = chain_ctx ex_chain,
       ha_h = nest_last_outermost [layer (emit 1) (emit 2), layer (emit 3) (emit 4)]
         (Some (HandlerFunc (Some (emit 0))))\<rparr>)) () () [] =
     Inr [3, 1, 0, 2, 4] \<and>
   invoke (fst (End ex_chain (Some (HandlerFunc (Some (emit 0)))) ex_store)) () () [] \<noteq>
   ServeHTTP (Some (HandlerAdapter \<lparr>ha_ctx = chain_ctx ex_chain,
       ha_h = nest_last_outermost [layer (emit 1) (emit 2), layer (emit 3) (emit 4)]
         (Some (HandlerFunc (Some (emit 0))))\<rparr>)) () () []"
  by (simp add: End_nest [OF ex_chain_wf ex_chain_elems] invoke_def handlerAdapter_ServeHTTP_def
      layer_def emit_def)

text \<open>
  C3, amended. \<^verbatim>\<open>End(h)\<close> applies the stored wraps to \<open>h\<close> in reverse order of storage, so
  that the last-appended wrap is applied first and is the innermost layer (closest to
  \<open>h\<close>) and the first-appended wrap is the outermost layer.
\<close>

theorem End_first_outermost:
  assumes "wf_slice \<sigma> (chain_m c)" and "elems \<sigma> (chain_m c) = map Some ws"
  shows "fst (End c (Some h) \<sigma>) =
      Inr (Some (HandlerAdapter
        \<lparr>ha_ctx = chain_ctx c, ha_h = foldl (\<lambda>a w. w a) (Some h) (rev ws)\<rparr>)) \<and>
    foldl (\<lambda>a w. w a) (Some h) (rev ws) = nest ws (Some h)"
proof -
  have "foldl (\<lambda>a w. w a) a (rev ws) = nest ws a" for a
    by (induction ws) simp_all
  then show ?thesis
    by (simp add: End_nest [OF assms])
qed

theorem End_first_outermost_witness:
  "wf_slice ex_store (chain_m ex_chain) \<and>
   elems ex_store (chain_m ex_chain) = map Some [layer (emit 1) (emit 2), layer (emit 3) (emit 4)] \<and>
   fst (End ex_chain (Some (HandlerFunc (Some (emit 0)))) ex_store) =
     Inr (Some (HandlerAdapter \<lparr>ha_ctx = 7,
       ha_h = layer (emit 1) (emit 2) (layer (emit 3) (emit 4) (Some (HandlerFunc (Some (emit 0)))))\<rparr>))"
  using End_first_outermost [OF ex_chain_wf ex_chain_elems, of "HandlerFunc (Some (emit 0))"]
    ex_chain_wf ex_chain_elems
  by (simp add: ex_chain_def New_def)

subsection \<open>The context a request is served with\<close>

text \<open>
  C8. The handler that \<^verbatim>\<open>End(h)\<close> returns serves every request \<open>(w, r)\<close> by calling the
  method of the fully wrapped handler with the chain's stored context, \<open>w\<close> and \<open>r\<close>.
\<close>

theorem End_supplies_chain_context:
  assumes "wf_slice \<sigma> (chain_m c)" and "elems \<sigma> (chain_m c) = map Some ws"
  shows "invoke (fst (End c (Some h) \<sigma>)) w r s =
    ServeHTTPContext (nest ws (Some h)) (chain_ctx c) w r s"
  by (simp add: invoke_End [OF assms])

theorem End_supplies_chain_context_witness:
  "wf_slice ex_store (chain_m ex_chain) \<and>
   elems ex_store (chain_m ex_chain) = map Some [layer (emit 1) (emit 2), layer (emit 3) (emit 4)] \<and>
   invoke (fst (End ex_chain (Some (HandlerImpl note_ctx)) ex_store)) () () [] =
     Inr [1, 3, 7, 4, 2]"
  using End_supplies_chain_context [OF ex_chain_wf ex_chain_elems, of "HandlerImpl note_ctx" "()" "()" "[]"]
    ex_chain_wf ex_chain_elems
  by (simp add: layer_def emit_def note_ctx_def ex_chain_def New_def)

subsection \<open>Finalizing with the nil handler\<close>

text \<open>
  C4. For every chain, whatever wraps it holds, \<^verbatim>\<open>End(nil)\<close> returns the nil
  \<^verbatim>\<open>http.Handler\<close>. No wrap is applied: the result is nil and not a panic also when the
  stored wraps are nil funcs, whose application would panic, and the store is left as it was.
\<close>

theorem End_nil: "End c None \<sigma> = (Inr None, \<sigma>)"
  by (simp add: End_def)

text \<open>
  C5. \<^verbatim>\<open>EndFn(nil)\<close> returns what \<^verbatim>\<open>End(nil)\<close> returns, and for a non-nil function \<open>f\<close>,
  \<^verbatim>\<open>EndFn(f)\<close> is \<^verbatim>\<open>End\<close> of \<open>f\<close> as a \<^verbatim>\<open>HandlerFunc\<close>.
\<close>

theorem EndFn_reduces_to_End:
  "EndFn c None \<sigma> = End c None \<sigma> \<and> EndFn c (Some f) \<sigma> = End c (Some (HandlerFunc (Some f))) \<sigma>"
  by (simp add: EndFn_def)

subsection \<open>What End leaves behind\<close>

text \<open>The loop with closures that only return is the loop with the wraps they stand for.\<close>

lemma index_map:
  "index (map (map (map_option f)) \<sigma>) s i =
     (case index \<sigma> s i of Inl p \<Rightarrow> Inl p | Inr x \<Rightarrow> Inr (map_option f x))"
  by (auto simp: index_def)

lemma End_loop_mem_returns:
  assumes "\<And>k. code k = returns (wtab k)"
  shows "End_loop_mem code ms i h M =
    (End_loop (map (map (map_option wtab)) (arrays M)) ms i h, M)"
proof (induction "nat (i + 1)" arbitrary: i h)
  case 0
  then have "\<not> i \<ge> 0" by simp
  then show ?case by (simp add: End_loop_mem.simps End_loop.simps)
next
  case (Suc n)
  then have i: "i \<ge> 0" and n: "n = nat (i - 1 + 1)" by simp_all
  show ?case
    using i Suc.hyps(1) [OF n]
    by (subst End_loop_mem.simps, subst End_loop.simps)
      (simp add: index_map assms returns_def split: sum.splits option.splits)
qed

lemma End_mem_returns:
  assumes "\<And>k. code k = returns (wtab k)"
  shows "End_mem code c h M = (fst (End c h (map (map (map_option wtab)) (arrays M))), M)"
  by (simp add: End_mem_def End_def End_loop_mem_returns [OF assms] split: sum.splits)





subsection \<open>Bridge\<close>

text \<open>
  C6 as stated fails on the code in its last clause: the inner handler receives the
  response writer and request that the legacy handler serves its argument with, which
  need not be the real ones. Served with writer 10 and request 20 through a legacy wrap
  that passes on 11 and 21, the inner handler is called with context 7, writer 11 and
  request 21.
\<close>

theorem Bridge_substituted_request_counterexample:
  "invoke (fst (End ex_chain (Some (HandlerImpl note_args)) ex_substituting)) 10 20 [] = Inr [7, 11, 21] \<and>
   invoke (fst (End ex_chain (Some (HandlerImpl note_args)) ex_substituting)) 10 20 [] \<noteq> Inr [7, 10, 20]"
  by (simp add: End_def End_loop.simps index_def ex_substituting_def ex_chain_def New_def invoke_def
      handlerAdapter_ServeHTTP_def Bridge_def legacy_def note_args_def)

text \<open>
  C6, amended. In a chain of bridged legacy wraps, finalized with \<open>h\<close>, a request runs the
  legacy wraps, nested in the order of storage, around the plain handler that calls \<open>h\<close>
  with the chain's context. Each legacy wrap \<open>lw\<close> is applied to a
  \<^verbatim>\<open>noCtxHandlerAdapter\<close>, a value of type \<^verbatim>\<open>http.Handler\<close>, holding the context the bridged
  layer was entered with and the next handler \<open>n\<close>; serving \<open>(w', r')\<close> with that adapter
  calls \<open>n\<close> with that context and the \<open>w'\<close> and \<open>r'\<close> it was served with. When every legacy
  wrap passes on the response writer and request it was given, \<open>h\<close> is called with the
  chain's context and the real response writer and request.
\<close>

theorem Bridge_passes_context:
  assumes "wf_slice \<sigma> (chain_m c)"
    and "elems \<sigma> (chain_m c) = map (\<lambda>body. Some (Bridge (Some (legacy body)))) bodies"
  shows "invoke (fst (End c (Some h) \<sigma>)) w r s =
      nest bodies (ServeHTTPContext (Some h) (chain_ctx c)) w r s \<and>
    ServeHTTPContext (Bridge (Some lw) n) ctx w r s =
      ServeHTTP (lw (Some (NoCtxHandlerAdapter \<lparr>ha_ctx = ctx, ha_h = n\<rparr>))) w r s \<and>
    ServeHTTP (Some (NoCtxHandlerAdapter \<lparr>ha_ctx = ctx, ha_h = n\<rparr>)) w' r' s' =
      ServeHTTPContext n ctx w' r' s' \<and>
    (bodies = map (\<lambda>(pre, post). pass_on pre post) lays \<longrightarrow>
      invoke (fst (End c (Some h) \<sigma>)) w r s =
        run_all (map (\<lambda>(pre, post). pre w r) lays @
          [ServeHTTPContext (Some h) (chain_ctx c) w r] @
          rev (map (\<lambda>(pre, post). post w r) lays)) s)"
proof -
  have stored: "elems \<sigma> (chain_m c) = map Some (map (\<lambda>body. Bridge (Some (legacy body))) bodies)"
    using assms(2) by simp
  have served: "invoke (fst (End c (Some h) \<sigma>)) w r s =
      nest bodies (ServeHTTPContext (Some h) (chain_ctx c)) w r s"
    by (simp only: invoke_End [OF assms(1) stored] nest_bridges)
  have layer: "ServeHTTPContext (Bridge (Some lw) n) ctx w r s =
      ServeHTTP (lw (Some (NoCtxHandlerAdapter \<lparr>ha_ctx = ctx, ha_h = n\<rparr>))) w r s"
    by (simp add: Bridge_def)
  have passing: "invoke (fst (End c (Some h) \<sigma>)) w r s =
        run_all (map (\<lambda>(pre, post). pre w r) lays @
          [ServeHTTPContext (Some h) (chain_ctx c) w r] @
          rev (map (\<lambda>(pre, post). post w r) lays)) s"
    if "bodies = map (\<lambda>(pre, post). pass_on pre post) lays"
    by (simp only: served that nest_pass_on)
  from served layer passing show ?thesis
    by (simp only: NoCtx_ServeHTTP) blast
qed

theorem Bridge_passes_context_witness:
  "wf_slice ex_passing (chain_m ex_chain) \<and>
   elems ex_passing (chain_m ex_chain) = map (\<lambda>body. Some (Bridge (Some (legacy body))))
     (map (\<lambda>(pre, post). pass_on pre post) [(emit 1 (), emit 2 ()), (emit 3 (), emit 4 ())]) \<and>
   invoke (fst (End ex_chain (Some (HandlerImpl note_args)) ex_passing)) 10 20 [] =
     Inr [1, 3, 7, 10, 20, 4, 2]"
proof -
  have wf: "wf_slice ex_passing (chain_m ex_chain)"
    by (simp add: wf_slice_def ex_passing_def ex_chain_def New_def)
  have stored: "elems ex_passing (chain_m ex_chain) = map (\<lambda>body. Some (Bridge (Some (legacy body))))
     (map (\<lambda>(pre, post). pass_on pre post) [(emit 1 (), emit 2 ()), (emit 3 (), emit 4 ())])"
    by (simp add: elems_def ex_passing_def ex_chain_def New_def)
  note inst = Bridge_passes_context [OF wf stored, of "HandlerImpl note_args" 10 20 "[]" _ _ _ _ _ _
      "[(emit 1 (), emit 2 ()), (emit 3 (), emit 4 ())]"]
  from conjunct2 [OF conjunct2 [OF conjunct2 [OF inst]]]
  have "invoke (fst (End ex_chain (Some (HandlerImpl note_args)) ex_passing)) 10 20 [] =
     Inr [1, 3, 7, 10, 20, 4, 2]"
    by (simp add: emit_def note_args_def ex_chain_def New_def)
  with wf stored show ?thesis by simp
qed

subsection \<open>The post-handler context slot\<close>

text \<open>
  C7. On the context that \<^verbatim>\<open>InitPHFC(ctx)\<close> returns, \<^verbatim>\<open>GetPHFC\<close> returns true and the pointer
  stored under the key. That pointer is a pointer to the context: it is the address of a
  cell that \<^verbatim>\<open>InitPHFC\<close> has added to the cells there were (which it leaves as they were),
  and the cell holds \<open>ctx\<close>. On a context whose derivation chain has no entry under the
  key, \<^verbatim>\<open>GetPHFC\<close> returns false.
\<close>

theorem GetPHFC_after_InitPHFC:
  "GetPHFC (fst (InitPHFC ctx \<mu>)) = (Some (length \<mu>), True) \<and>
   Value (fst (InitPHFC ctx \<mu>)) postHandlerFuncCtxKey = Some (ContextPtr (Some (length \<mu>))) \<and>
   load (snd (InitPHFC ctx \<mu>)) (fst (GetPHFC (fst (InitPHFC ctx \<mu>)))) = Inr ctx \<and>
   load \<mu> (fst (GetPHFC (fst (InitPHFC ctx \<mu>)))) = Inl InvalidMemory \<and>
   length (snd (InitPHFC ctx \<mu>)) = Suc (length \<mu>) \<and>
   take (length \<mu>) (snd (InitPHFC ctx \<mu>)) = \<mu> \<and>
   (postHandlerFuncCtxKey \<notin> keys ctx' \<longrightarrow> GetPHFC ctx' = (None, False))"
  by (simp add: GetPHFC_def InitPHFC_def load_def Value_absent)

theorem GetPHFC_after_InitPHFC_witness:
  "postHandlerFuncCtxKey \<notin> keys (cancelCtx (valueCtx emptyCtx (foreignKey ''user'') (Some (foreignVal ''bob'')))) \<and>
   GetPHFC (cancelCtx (valueCtx emptyCtx (foreignKey ''user'') (Some (foreignVal ''bob'')))) = (None, False) \<and>
   GetPHFC (fst (InitPHFC (cancelCtx (valueCtx emptyCtx (foreignKey ''user'') (Some (foreignVal ''bob''))))
     [emptyCtx])) = (Some 1, True) \<and>
   load (snd (InitPHFC (cancelCtx (valueCtx emptyCtx (foreignKey ''user'') (Some (foreignVal ''bob''))))
     [emptyCtx])) (Some 1) =
     Inr (cancelCtx (valueCtx emptyCtx (foreignKey ''user'') (Some (foreignVal ''bob''))))"
proof -
  have absent: "postHandlerFuncCtxKey \<notin>
      keys (cancelCtx (valueCtx emptyCtx (foreignKey ''user'') (Some (foreignVal ''bob''))))"
    by (simp add: postHandlerFuncCtxKey_def)
  note inst = GetPHFC_after_InitPHFC [of
      "cancelCtx (valueCtx emptyCtx (foreignKey ''user'') (Some (foreignVal ''bob'')))" "[emptyCtx]"
      "cancelCtx (valueCtx emptyCtx (foreignKey ''user'') (Some (foreignVal ''bob'')))"]
  from inst absent show ?thesis
    by (simp add: InitPHFC_def GetPHFC_def load_def postHandlerFuncCtxKey_def)
qed

text \<open>
  C9. Reading through the pointer that \<^verbatim>\<open>GetPHFC\<close> returns for \<^verbatim>\<open>InitPHFC(ctx)\<close>, in the
  store as \<^verbatim>\<open>InitPHFC\<close> leaves it, gives the context \<open>ctx\<close> that was passed in, which is
  not the derived context that \<^verbatim>\<open>InitPHFC\<close> returned.
\<close>

theorem PHFC_cell_holds_parent:
  "load (snd (InitPHFC ctx \<mu>)) (fst (GetPHFC (fst (InitPHFC ctx \<mu>)))) = Inr ctx \<and>
   fst (InitPHFC ctx \<mu>) \<noteq> ctx"
proof -
  have "valueCtx ctx k v \<noteq> ctx" for k v
    by (induction ctx) auto
  then show ?thesis
    by (simp add: load_def GetPHFC_def InitPHFC_def)
qed

subsection \<open>Append and shared backing arrays\<close>

text \<open>
  C2 fails on the code. \<^verbatim>\<open>Append\<close> on a chain whose slice has spare capacity writes into
  the shared array: with \<open>C2 = C.Append(x)\<close> and then \<open>C3 = C.Append(y)\<close>, the second call
  puts \<open>y\<close> where the first put \<open>x\<close>. Finalized before the second call, \<open>C2\<close> runs \<open>x\<close>
  (events 3 and 4); finalized after it, \<open>C2\<close> runs \<open>y\<close> (events 5 and 6), as \<open>C3\<close> does.
  This holds for every growth policy, since nothing grows; \<open>C\<close> itself is not affected.
\<close>

theorem Append_siblings_share_array:
  "(let h = Some (HandlerFunc (Some (emit 0)));
        (C2, \<sigma>1) = Append grow ex_parent [Some (layer (emit 3) (emit 4))] ex_spare;
        (C3, \<sigma>2) = Append grow ex_parent [Some (layer (emit 5) (emit 6))] \<sigma>1
    in invoke (fst (End C2 h \<sigma>1)) () () [] = Inr [1, 3, 0, 4, 2] \<and>
       invoke (fst (End C2 h \<sigma>2)) () () [] = Inr [1, 5, 0, 6, 2] \<and>
       invoke (fst (End C3 h \<sigma>2)) () () [] = Inr [1, 5, 0, 6, 2] \<and>
       invoke (fst (End ex_parent h \<sigma>2)) () () [] = Inr [1, 0, 2])"
  by (simp add: ex_spare_def ex_parent_def New_def Append_def append_slice_def write_at_def
      End_def End_loop.simps index_def invoke_def handlerAdapter_ServeHTTP_def layer_def emit_def)

text \<open>
  The same through the package's functions alone, for a growth that answers the three
  one-wrap appends with capacities 1, 2 and 4 (the Go runtime does): after
  \<^verbatim>\<open>C := New(7).Append(a).Append(b).Append(c)\<close> the slice of \<open>C\<close> has length 3 and capacity 4,
  and \<^verbatim>\<open>C.Append(y)\<close> replaces the wrap that \<^verbatim>\<open>C.Append(x)\<close> gave to \<open>C2\<close>.
\<close>

lemma Append_grown_chain_shares_slot:
  assumes "grow 0 1 = 1" and "grow 1 2 = 2" and "grow 2 3 = 4"
  shows "(let h = Some (HandlerFunc (Some (emit 0)));
        (C0, \<sigma>0) = Append grow (New (7::nat) nil_slice) [Some (layer (emit 1) (emit 2))] [];
        (C1, \<sigma>1) = Append grow C0 [Some (layer (emit 3) (emit 4))] \<sigma>0;
        (C, \<sigma>2) = Append grow C1 [Some (layer (emit 5) (emit 6))] \<sigma>1;
        (C2, \<sigma>3) = Append grow C [Some (layer (emit 7) (emit 8))] \<sigma>2;
        (C3, \<sigma>4) = Append grow C [Some (layer (emit 9) (emit 10))] \<sigma>3
    in (len (chain_m C), cap (chain_m C)) = (3, 4) \<and>
       invoke (fst (End C2 h \<sigma>3)) () () [] = Inr [1, 3, 5, 7, 0, 8, 6, 4, 2] \<and>
       invoke (fst (End C2 h \<sigma>4)) () () [] = Inr [1, 3, 5, 9, 0, 10, 6, 4, 2])"
proof -
  have g1: "grow 0 (Suc 0) = Suc 0"
    using assms(1) by simp
  have g2: "grow (Suc 0) (Suc (Suc 0)) = Suc (Suc 0)"
    using assms(2) by (simp add: numeral_2_eq_2)
  have g3: "grow (Suc (Suc 0)) (Suc (Suc (Suc 0))) = Suc (Suc (Suc (Suc 0)))"
    using assms(3) by (simp add: numeral_2_eq_2 numeral_3_eq_3 eval_nat_numeral)
  have s0: "Append grow (New (7::nat) nil_slice) [Some w1] [] =
      (New 7 \<lparr>arr = 0, off = 0, len = Suc 0, cap = Suc 0\<rparr>, [[Some w1]])" for w1 :: "(nat, unit, unit, nat list) Wrap"
    by (simp add: Append_def append_slice_def New_def nil_slice_def elems_def g1)
  have s1: "Append grow (New (7::nat) \<lparr>arr = 0, off = 0, len = Suc 0, cap = Suc 0\<rparr>) [Some w2] [[Some w1]] =
      (New 7 \<lparr>arr = Suc 0, off = 0, len = Suc (Suc 0), cap = Suc (Suc 0)\<rparr>,
       [[Some w1], [Some w1, Some w2]])" for w1 w2 :: "(nat, unit, unit, nat list) Wrap"
    by (simp add: Append_def append_slice_def New_def elems_def g2)
  have s2: "Append grow (New (7::nat) \<lparr>arr = Suc 0, off = 0, len = Suc (Suc 0), cap = Suc (Suc 0)\<rparr>)
        [Some w3] [[Some w1], [Some w1, Some w2]] =
      (New 7 \<lparr>arr = Suc (Suc 0), off = 0, len = Suc (Suc (Suc 0)), cap = Suc (Suc (Suc (Suc 0)))\<rparr>,
       [[Some w1], [Some w1, Some w2], [Some w1, Some w2, Some w3, None]])"
    for w1 w2 w3 :: "(nat, unit, unit, nat list) Wrap"
    by (simp add: Append_def append_slice_def New_def elems_def g3)
  show ?thesis
    by (simp add: s0 s1 s2)
      (simp add: New_def Append_def append_slice_def write_at_def
        End_def End_loop.simps index_def invoke_def handlerAdapter_ServeHTTP_def layer_def emit_def)
qed

text \<open>
  What \<^verbatim>\<open>Append\<close> does keep: the returned chain shows the receiver's wraps followed by the
  new ones, it has the receiver's context, and the receiver shows the wraps it showed
  before.
\<close>

lemma append_slice_elems:
  assumes "wf_slice \<sigma> s" and "append_slice grow \<sigma> s vs = (s', \<sigma>')"
  shows "elems \<sigma>' s' = elems \<sigma> s @ vs" and "elems \<sigma>' s = elems \<sigma> s" and "wf_slice \<sigma>' s'"
proof -
  let ?n = "len s + length vs"
  show "elems \<sigma>' s' = elems \<sigma> s @ vs"
  proof (cases "?n \<le> cap s")
    case True
    then show ?thesis
      using assms
      by (auto simp: append_slice_def Let_def wf_slice_def elems_def write_at_def drop_take)
  next
    case False
    then show ?thesis
      using assms length_elems [OF assms(1)]
      by (auto simp: append_slice_def Let_def elems_def[of \<sigma>' s'])
  qed
  show "elems \<sigma>' s = elems \<sigma> s"
  proof (cases "?n \<le> cap s")
    case True
    then show ?thesis
      using assms
      by (auto simp: append_slice_def Let_def wf_slice_def elems_def write_at_def drop_take)
  next
    case False
    then show ?thesis
      using assms
      by (auto simp: append_slice_def Let_def wf_slice_def elems_def nth_append)
  qed
  show "wf_slice \<sigma>' s'"
  proof (cases "?n \<le> cap s")
    case True
    then show ?thesis
      using assms
      by (auto simp: append_slice_def Let_def wf_slice_def write_at_def)
  next
    case False
    then show ?thesis
      using assms length_elems [OF assms(1)]
      by (auto simp: append_slice_def Let_def wf_slice_def)
  qed
qed

lemma Append_receiver_kept:
  assumes "wf_slice \<sigma> (chain_m c)" and "Append grow c mw \<sigma> = (c', \<sigma>')"
  shows "elems \<sigma>' (chain_m c') = elems \<sigma> (chain_m c) @ mw \<and>
    elems \<sigma>' (chain_m c) = elems \<sigma> (chain_m c) \<and>
    wf_slice \<sigma>' (chain_m c') \<and> chain_ctx c' = chain_ctx c"
proof -
  obtain s' where s': "append_slice grow \<sigma> (chain_m c) mw = (s', \<sigma>')" and c': "c' = c\<lparr>chain_m := s'\<rparr>"
    using assms(2) by (auto simp: Append_def split: prod.splits)
  show ?thesis
    using append_slice_elems [OF assms(1) s'] by (simp add: c')
qed

text \<open>So a chain grown by \<^verbatim>\<open>Append\<close> nests its wraps in the order they were appended.\<close>

lemma End_after_Append:
  assumes "wf_slice \<sigma> (chain_m c)" and "elems \<sigma> (chain_m c) = map Some ws"
    and "Append grow c (map Some vs) \<sigma> = (c', \<sigma>')"
  shows "End c' (Some h) \<sigma>' =
    (Inr (Some (HandlerAdapter \<lparr>ha_ctx = chain_ctx c, ha_h = nest (ws @ vs) (Some h)\<rparr>)), \<sigma>')"
proof -
  note kept = Append_receiver_kept [OF assms(1,3)]
  have "elems \<sigma>' (chain_m c') = map Some (ws @ vs)"
    using kept assms(2) by simp
  with kept show ?thesis
    using End_nest [of \<sigma>' c' "ws @ vs" h] by simp
qed

end
